theory Spec2Isabelle
  imports Complex_Main
begin

section \<open>Python values used by pages/2\_forecast.py\<close>

text \<open>
  The exceptions the modelled code can raise.  \<open>LibraryError\<close> stands for any exception
  raised inside statsmodels (a numerical or convergence error of a fit, an inapplicable
  unit-root test).
\<close>

datatype py_error = TypeError | ValueError | OverflowError | IndexError
  | ZeroDivisionError | LibraryError

text \<open>
  A Python float.  A finite float is modelled by the real number it denotes, and arithmetic
  on finite floats is exact; the two infinities and NaN are values of their own, because
  the code compares against \<open>np.inf\<close> and tests \<open>np.isnan\<close>.
\<close>

datatype pyfloat = Fin real | PInf | NInf | NaN

text \<open>The comparisons \<open>a < b\<close>, \<open>a <= b\<close> and \<open>a == b\<close> of floats: false as soon as one side is NaN.\<close>

fun flt :: "pyfloat \<Rightarrow> pyfloat \<Rightarrow> bool" where
  "flt (Fin x) (Fin y) = (x < y)"
| "flt (Fin x) PInf = True"
| "flt NInf (Fin y) = True"
| "flt NInf PInf = True"
| "flt _ _ = False"

fun fle :: "pyfloat \<Rightarrow> pyfloat \<Rightarrow> bool" where
  "fle (Fin x) (Fin y) = (x \<le> y)"
| "fle (Fin x) PInf = True"
| "fle NInf (Fin y) = True"
| "fle NInf PInf = True"
| "fle NInf NInf = True"
| "fle PInf PInf = True"
| "fle _ _ = False"

fun feq :: "pyfloat \<Rightarrow> pyfloat \<Rightarrow> bool" where
  "feq (Fin x) (Fin y) = (x = y)"
| "feq PInf PInf = True"
| "feq NInf NInf = True"
| "feq _ _ = False"

definition isnan :: "pyfloat \<Rightarrow> bool" where
  "isnan a = (a = NaN)"

text \<open>
  Float division \<open>a / b\<close>: Python raises ZeroDivisionError on a zero divisor; a finite value
  over an infinity is zero, an infinity over an infinity is NaN.
\<close>

fun fdiv :: "pyfloat \<Rightarrow> pyfloat \<Rightarrow> py_error + pyfloat" where
  "fdiv a (Fin y) =
     (if y = 0 then Inl ZeroDivisionError
      else case a of
        Fin x \<Rightarrow> Inr (Fin (x / y))
      | PInf \<Rightarrow> Inr (if 0 < y then PInf else NInf)
      | NInf \<Rightarrow> Inr (if 0 < y then NInf else PInf)
      | NaN \<Rightarrow> Inr NaN)"
| "fdiv (Fin x) PInf = Inr (Fin 0)"
| "fdiv (Fin x) NInf = Inr (Fin 0)"
| "fdiv a b = Inr NaN"

text \<open>
  The arithmetic of C doubles, which numpy computes with: no operation raises, an undefined
  one (\<open>inf - inf\<close>, \<open>0 * inf\<close>, \<open>0 / 0\<close>) is NaN.  The sign of a zero is not modelled; a
  zero divisor counts as \<open>+0.0\<close>.
\<close>

fun fneg :: "pyfloat \<Rightarrow> pyfloat" where
  "fneg (Fin x) = Fin (- x)"
| "fneg PInf = NInf"
| "fneg NInf = PInf"
| "fneg NaN = NaN"

fun fadd :: "pyfloat \<Rightarrow> pyfloat \<Rightarrow> pyfloat" where
  "fadd (Fin x) (Fin y) = Fin (x + y)"
| "fadd (Fin x) PInf = PInf"
| "fadd (Fin x) NInf = NInf"
| "fadd PInf (Fin y) = PInf"
| "fadd NInf (Fin y) = NInf"
| "fadd PInf PInf = PInf"
| "fadd NInf NInf = NInf"
| "fadd _ _ = NaN"

definition fsub :: "pyfloat \<Rightarrow> pyfloat \<Rightarrow> pyfloat" where
  "fsub a b = fadd a (fneg b)"

text \<open>An infinity times a finite factor: its sign follows the factor, and zero gives NaN.\<close>

definition inf_times :: "pyfloat \<Rightarrow> real \<Rightarrow> pyfloat" where
  "inf_times i x = (if 0 < x then i else if x < 0 then fneg i else NaN)"

fun fmul :: "pyfloat \<Rightarrow> pyfloat \<Rightarrow> pyfloat" where
  "fmul (Fin x) (Fin y) = Fin (x * y)"
| "fmul (Fin x) PInf = inf_times PInf x"
| "fmul (Fin x) NInf = inf_times NInf x"
| "fmul PInf (Fin y) = inf_times PInf y"
| "fmul NInf (Fin y) = inf_times NInf y"
| "fmul PInf PInf = PInf"
| "fmul NInf NInf = PInf"
| "fmul PInf NInf = NInf"
| "fmul NInf PInf = NInf"
| "fmul _ _ = NaN"

definition c_fdiv :: "pyfloat \<Rightarrow> pyfloat \<Rightarrow> pyfloat" where
  "c_fdiv a b =
     (case fdiv a b of
        Inr r \<Rightarrow> r
      | Inl e \<Rightarrow> (case a of Fin x \<Rightarrow> inf_times PInf x | PInf \<Rightarrow> PInf | NInf \<Rightarrow> NInf | NaN \<Rightarrow> NaN))"

text \<open>
  The builtins \<open>min(a, b)\<close> and \<open>max(a, b)\<close> keep the first argument unless the second is
  strictly smaller (larger).
\<close>

definition py_min :: "pyfloat \<Rightarrow> pyfloat \<Rightarrow> pyfloat" where
  "py_min a b = (if flt b a then b else a)"

definition py_max :: "pyfloat \<Rightarrow> pyfloat \<Rightarrow> pyfloat" where
  "py_max a b = (if flt a b then b else a)"

subsection \<open>The builtin round\<close>

text \<open>
  C's \<open>round\<close>: to the nearest integer, a half away from zero.
\<close>

definition c_round :: "real \<Rightarrow> int" where
  "c_round x = (if 0 \<le> x then \<lfloor>x + 1 / 2\<rfloor> else \<lceil>x - 1 / 2\<rceil>)"

text \<open>
  CPython's one-argument \<open>round\<close> of a float: \<open>rounded = round(x)\<close>, and when
  \<open>fabs(x - rounded) == 0.5\<close> the result is \<open>2.0 * round(x / 2.0)\<close> instead.
\<close>

definition py_round_real :: "real \<Rightarrow> int" where
  "py_round_real x =
     (let rounded = c_round x
      in if \<bar>x - of_int rounded\<bar> = 1 / 2 then 2 * c_round (x / 2) else rounded)"

text \<open>\<open>round\<close> raises ValueError on NaN and OverflowError on an infinity.\<close>

fun py_round :: "pyfloat \<Rightarrow> py_error + int" where
  "py_round (Fin x) = Inr (py_round_real x)"
| "py_round NaN = Inl ValueError"
| "py_round PInf = Inl OverflowError"
| "py_round NInf = Inl OverflowError"

section \<open>The projection of a forecast onto non-negative integers\<close>

text \<open>
  Lines 127 to 134 of \<open>main\<close>: the two raw bounds are ordered by \<open>min\<close> and \<open>max\<close>,
  then the mean and each bound are rounded and clipped at zero.
\<close>

definition project_forecast ::
  "pyfloat \<Rightarrow> pyfloat \<Rightarrow> pyfloat \<Rightarrow> py_error + (int \<times> int \<times> int)" where
  "project_forecast y_hat_raw conf0 conf1 =
     (let lower_raw = py_min conf0 conf1;
          upper_raw = py_max conf0 conf1
      in case py_round y_hat_raw of
           Inl e \<Rightarrow> Inl e
         | Inr yr \<Rightarrow>
             (case py_round lower_raw of
                Inl e \<Rightarrow> Inl e
              | Inr lr \<Rightarrow>
                  (case py_round upper_raw of
                     Inl e \<Rightarrow> Inl e
                   | Inr ur \<Rightarrow> Inr (max 0 yr, max 0 lr, max 0 ur))))"

text \<open>
  The projection as the specification words it: round the mean and each bound, clamp each
  at zero, then take the smaller and the larger of the two clamped, rounded bounds.
\<close>

definition spec_projection :: "real \<Rightarrow> real \<Rightarrow> real \<Rightarrow> int \<times> int \<times> int" where
  "spec_projection m a b =
     (let pm = max 0 (py_round_real m);
          ca = max 0 (py_round_real a);
          cb = max 0 (py_round_real b)
      in (pm, min ca cb, max ca cb))"

section \<open>Order search: \<open>auto_arimax\<close>\<close>

text \<open>An order \<open>(p, d, q)\<close>.\<close>

type_synonym order = "nat \<times> nat \<times> nat"

text \<open>
  The three nested loops of \<open>auto_arimax\<close>: \<open>p\<close> over \<open>range(4)\<close> outermost, \<open>d\<close> over
  \<open>(0, 1)\<close>, \<open>q\<close> over \<open>range(4)\<close> innermost.
\<close>

definition p_vals :: "nat list" where "p_vals = [0..<4]"
definition d_vals :: "nat list" where "d_vals = [0, 1]"
definition q_vals :: "nat list" where "q_vals = [0..<4]"

definition grid :: "order list" where
  "grid = concat (map (\<lambda>p. concat (map (\<lambda>d. map (\<lambda>q. (p, d, q)) q_vals) d_vals)) p_vals)"

text \<open>
  The running triple \<open>best\<close>: the order, its AIC and the fitted result, the first and
  the last being \<open>None\<close> until a candidate is retained.
\<close>

type_synonym 'r best = "order option \<times> pyfloat \<times> 'r option"

text \<open>
  One pass of the loop body.  \<open>fit c\<close> is \<open>SARIMAX(y, exog=ex, order=c, ...).fit(disp=False)\<close>:
  \<open>Inl\<close> when it raises (the \<open>except Exception: continue\<close> branch), otherwise the AIC
  of the result and the result.
\<close>

definition try_candidate ::
  "(order \<Rightarrow> py_error + (pyfloat \<times> 'r)) \<Rightarrow> 'r best \<Rightarrow> order \<Rightarrow> 'r best" where
  "try_candidate fit best c =
     (case fit c of
        Inl e \<Rightarrow> best
      | Inr (aic, r) \<Rightarrow> if flt aic (fst (snd best)) then (Some c, aic, Some r) else best)"

definition search :: "(order \<Rightarrow> py_error + (pyfloat \<times> 'r)) \<Rightarrow> order list \<Rightarrow> 'r best" where
  "search fit cs = foldl (try_candidate fit) (None, PInf, None) cs"

definition auto_arimax ::
  "('y \<Rightarrow> 'x \<Rightarrow> order \<Rightarrow> py_error + (pyfloat \<times> 'r)) \<Rightarrow> 'y \<Rightarrow> 'x \<Rightarrow> 'r best" where
  "auto_arimax sarimax_fit y ex = search (sarimax_fit y ex) grid"

text \<open>
  Two predicates on a run of the loop over the candidates \<open>cs\<close>.  No candidate fits with a
  score strictly below \<open>+inf\<close>:
\<close>

definition none_below_inf ::
  "(order \<Rightarrow> py_error + (pyfloat \<times> 'r)) \<Rightarrow> order list \<Rightarrow> bool" where
  "none_below_inf fit cs = (\<forall>c\<in>set cs. \<forall>s r. fit c = Inr (s, r) \<longrightarrow> \<not> flt s PInf)"

text \<open>
  Candidate \<open>c\<close> fits with the score \<open>s\<close>, strictly below \<open>+inf\<close>; no candidate before it in
  \<open>cs\<close> fits with a score \<open>\<le> s\<close>, and none after it with a score \<open>< s\<close>:
\<close>

definition retained ::
  "(order \<Rightarrow> py_error + (pyfloat \<times> 'r)) \<Rightarrow> order list \<Rightarrow> order \<Rightarrow> pyfloat \<Rightarrow> 'r \<Rightarrow> bool" where
  "retained fit cs c s r =
     (\<exists>xs ys. cs = xs @ c # ys \<and> fit c = Inr (s, r) \<and> flt s PInf
        \<and> (\<forall>c'\<in>set xs. \<forall>s' r'. fit c' = Inr (s', r') \<longrightarrow> \<not> fle s' s)
        \<and> (\<forall>c'\<in>set ys. \<forall>s' r'. fit c' = Inr (s', r') \<longrightarrow> \<not> flt s' s))"

section \<open>Interpretation of the order: \<open>dynamic_pdq_interpretation\<close>\<close>

text \<open>
  The messages, one constructor per string literal of the function, in source order; the
  formatted ones carry the number they print.
\<close>

datatype pdq_msg =
    D0_already_stationary
  | D0_handled_by_arma_or_exog
  | D_differencing_applied nat
  | D_prefers_differencing nat
  | D_degree_selected nat
  | P0_limited_past
  | P_moderate_memory nat
  | P_deeper_memory nat
  | Q0_unstructured_noise
  | Q_short_term_shocks nat
  | Q_complex_noise nat

definition dynamic_pdq_interpretation ::
  "nat \<Rightarrow> nat \<Rightarrow> nat \<Rightarrow> pyfloat option \<Rightarrow> pdq_msg list" where
  "dynamic_pdq_interpretation p d q adf_p =
     (let msgs = [];
          msgs = msgs @
            [if d = 0 \<and> adf_p \<noteq> None then
               (if flt (the adf_p) (Fin (5 / 100)) then D0_already_stationary
                else D0_handled_by_arma_or_exog)
             else if d \<ge> 1 \<and> adf_p \<noteq> None then
               (if fle (Fin (5 / 100)) (the adf_p) then D_differencing_applied d
                else D_prefers_differencing d)
             else D_degree_selected d];
          msgs = msgs @
            [if p = 0 then P0_limited_past
             else if p \<in> {1, 2} then P_moderate_memory p
             else P_deeper_memory p];
          msgs = msgs @
            [if q = 0 then Q0_unstructured_noise
             else if q \<in> {1, 2} then Q_short_term_shocks q
             else Q_complex_noise q]
      in msgs)"

section \<open>Fit quality: \<open>gentle_fidelity_notes\<close>\<close>

datatype fidelity_msg =
    Low_natural_variability
  | Deviations_contained
  | Deviations_in_line
  | Deviations_exceed
  | Suggestion_compare_peaks

definition gentle_fidelity_notes ::
  "pyfloat \<Rightarrow> pyfloat option \<Rightarrow> py_error + fidelity_msg list" where
  "gentle_fidelity_notes rmse y_std =
     (if y_std = None \<or> feq (the y_std) (Fin 0) \<or> isnan (the y_std) then
        Inr [Low_natural_variability]
      else case fdiv rmse (the y_std) of
        Inl e \<Rightarrow> Inl e
      | Inr ratio \<Rightarrow>
          Inr ([if flt ratio (Fin (1 / 2)) then Deviations_contained
                else if flt ratio (Fin 1) then Deviations_in_line
                else Deviations_exceed]
               @ [Suggestion_compare_peaks]))"

section \<open>Series preparation: \<open>load_cicalino_data\<close>\<close>

text \<open>
  A row of the sheet after the coercions of lines 13 to 15: the date as a day number, or
  \<open>None\<close> where \<open>pd.to_datetime(errors="coerce")\<close> gave NaT; each numeric cell as the
  float that \<open>pd.to_numeric(errors="coerce")\<close> gave, which is NaN for an empty or
  non-numeric cell and can be an infinity (the text \<open>inf\<close> is numeric).
\<close>

record raw_row =
  Date :: "int option"
  temperature_mean :: pyfloat
  relativehumidity_mean :: pyfloat
  adult_males :: pyfloat

text \<open>A row of the frame once \<open>Date\<close> is its index: the day, then the three columns.\<close>

type_synonym frame_row = "int \<times> pyfloat \<times> pyfloat \<times> pyfloat"

text \<open>The two results: \<open>y\<close> (captures) and \<open>ex\<close> (temperature, humidity), each with its index.\<close>

type_synonym series = "(int \<times> pyfloat) list"
type_synonym exog = "(int \<times> pyfloat \<times> pyfloat) list"

text \<open>\<open>dropna(subset=[...])\<close> drops a row with NaT or a NaN; an infinity is not missing.\<close>

definition dropna :: "raw_row list \<Rightarrow> raw_row list" where
  "dropna df =
     filter (\<lambda>r. Date r \<noteq> None \<and> \<not> isnan (temperature_mean r)
                 \<and> \<not> isnan (relativehumidity_mean r) \<and> \<not> isnan (adult_males r)) df"

definition sort_values_Date :: "raw_row list \<Rightarrow> raw_row list" where
  "sort_values_Date df = sort_key (\<lambda>r. the (Date r)) df"

definition set_index_Date :: "raw_row list \<Rightarrow> frame_row list" where
  "set_index_Date df =
     map (\<lambda>r. (the (Date r), temperature_mean r, relativehumidity_mean r, adult_males r)) df"

text \<open>
  \<open>asfreq("D")\<close>: an empty frame stays empty; otherwise the frame is reindexed to every
  day from the smallest to the largest index value, a day without a row getting NaN in
  each column.  Reindexing raises ValueError when the index has a duplicate label.
\<close>

definition asfreq_D :: "frame_row list \<Rightarrow> py_error + frame_row list" where
  "asfreq_D df =
     (if df = [] then Inr []
      else if \<not> distinct (map fst df) then Inl ValueError
      else Inr (map (\<lambda>day. case map_of df day of
                               None \<Rightarrow> (day, NaN, NaN, NaN)
                             | Some v \<Rightarrow> (day, v))
                    [Min (set (map fst df)) .. Max (set (map fst df))]))"

text \<open>
  The interpolating branch of \<open>np.interp\<close>, for \<open>x\<close> strictly between the sample positions
  \<open>a\<close> and \<open>b\<close>: \<open>slope = (vb - va) / (b - a)\<close> and \<open>slope * (x - a) + va\<close>; when that is
  NaN the other direction \<open>slope * (x - b) + vb\<close> is tried, and when that is NaN too and
  the two sample values are equal, the result is that value.
\<close>

definition interp_between :: "nat \<Rightarrow> pyfloat \<Rightarrow> nat \<Rightarrow> pyfloat \<Rightarrow> nat \<Rightarrow> pyfloat" where
  "interp_between a va b vb x =
     (let slope = c_fdiv (fsub vb va) (Fin (real b - real a));
          res = fadd (fmul slope (Fin (real x - real a))) va
      in if isnan res then
           (let res2 = fadd (fmul slope (Fin (real x - real b))) vb
            in if isnan res2 \<and> feq va vb then va else res2)
         else res)"

text \<open>
  \<open>np.interp(x, xp, fp)\<close> on the positions and values of the valid entries, of which there
  is at least one: the first value at or left of the first position, the last value at or
  right of the last, the value itself at a sample position, \<open>interp_between\<close> otherwise.
\<close>

fun np_interp :: "nat \<times> pyfloat \<Rightarrow> (nat \<times> pyfloat) list \<Rightarrow> nat \<Rightarrow> pyfloat" where
  "np_interp (a, va) [] x = va"
| "np_interp (a, va) ((b, vb) # rest) x =
     (if x \<le> a then va
      else if x < b then interp_between a va b vb x
      else np_interp (b, vb) rest x)"

text \<open>The positions and values of the entries that are not NaN, in order.\<close>

definition valid_points :: "pyfloat list \<Rightarrow> (nat \<times> pyfloat) list" where
  "valid_points col = filter (\<lambda>(i, v). \<not> isnan v) (enumerate 0 col)"

text \<open>
  \<open>interpolate(limit_direction="both")\<close> on one column, with the default linear method
  (positions count, not dates): every NaN is replaced by \<open>np.interp\<close> at its position; a
  column without any valid entry is left as it is.
\<close>

definition interpolate_col :: "pyfloat list \<Rightarrow> pyfloat list" where
  "interpolate_col col =
     (case valid_points col of
        [] \<Rightarrow> col
      | p # ps \<Rightarrow> map (\<lambda>(i, v). if isnan v then np_interp p ps i else v) (enumerate 0 col))"

definition load_cicalino_data :: "raw_row list \<Rightarrow> py_error + (series \<times> exog)" where
  "load_cicalino_data sheet =
     (case asfreq_D (set_index_Date (sort_values_Date (dropna sheet))) of
        Inl e \<Rightarrow> Inl e
      | Inr df \<Rightarrow>
          (let idx = map fst df;
               temperature = interpolate_col (map (\<lambda>(day, t, h, m). t) df);
               humidity = interpolate_col (map (\<lambda>(day, t, h, m). h) df);
               captures = interpolate_col (map (\<lambda>(day, t, h, m). m) df)
           in Inr (zip idx captures, zip idx (zip temperature humidity))))"



section \<open>The page: \<open>main\<close>\<close>

text \<open>
  The library calls of \<open>main\<close> are parameters: \<open>adfuller(y)\<close> (its statistic and p-value),
  the fit of one candidate, \<open>get_forecast(steps=1, exog=ex_future)\<close> with the predicted
  mean and the two columns of \<open>conf_int(alpha=0.05)\<close>, and the in-sample errors of step 7
  (MAE, RMSE and the standard deviation of the actual values).
\<close>

record 'r libs =
  adfuller :: "series \<Rightarrow> py_error + (pyfloat \<times> pyfloat)"
  sarimax_fit :: "series \<Rightarrow> exog \<Rightarrow> order \<Rightarrow> py_error + (pyfloat \<times> 'r)"
  get_forecast :: "'r \<Rightarrow> (int option \<times> pyfloat \<times> pyfloat) \<Rightarrow>
                   py_error + (pyfloat \<times> pyfloat \<times> pyfloat)"
  fit_errors :: "series \<Rightarrow> 'r \<Rightarrow> pyfloat \<times> pyfloat \<times> pyfloat"

text \<open>Step 2: what the page shows of the test, and the \<open>adf_p\<close> kept for step 8.\<close>

datatype adf_note = Adf_shown pyfloat pyfloat | Adf_unavailable

definition adf_step :: "'r libs \<Rightarrow> series \<Rightarrow> adf_note \<times> pyfloat option" where
  "adf_step lib y =
     (case adfuller lib y of
        Inr (adf_stat, adf_p) \<Rightarrow> (Adf_shown adf_stat adf_p, Some adf_p)
      | Inl e \<Rightarrow> (Adf_unavailable, None))"

text \<open>
  Step 4, lines 121 to 123: \<open>next_day\<close> is the day after \<open>y.index.max()\<close> (NaT, here
  \<open>None\<close>, on an empty index), and \<open>ex_future\<close> is \<open>ex.iloc[-1]\<close> under that index;
  \<open>iloc[-1]\<close> raises IndexError on an empty frame.
\<close>

definition ex_future_row ::
  "series \<Rightarrow> exog \<Rightarrow> py_error + (int option \<times> pyfloat \<times> pyfloat)" where
  "ex_future_row y ex =
     (let last_day = (if y = [] then None else Some (Max (set (map fst y))));
          next_day = map_option (\<lambda>day. day + 1) last_day
      in if ex = [] then Inl IndexError else Inr (next_day, snd (last ex)))"

text \<open>What the page has rendered when \<open>main\<close> returns.\<close>

record page =
  adf_line :: adf_note
  selected_order :: order
  aic_metric :: pyfloat
  ex_future :: "int option \<times> pyfloat \<times> pyfloat"
  y_hat :: int
  lower :: int
  upper :: int
  mae_metric :: pyfloat
  rmse_metric :: pyfloat
  fidelity_notes :: "fidelity_msg list"
  pdq_notes :: "pdq_msg list"

text \<open>
  \<open>main\<close> ends by \<open>st.stop()\<close> after the error box "Nessun modello ARIMAX valido trovato."
  (\<open>Stopped\<close>), or with the whole page rendered; an uncaught exception is \<open>Inl\<close>.  The
  chart of step 5 only draws values computed before it and is left out.
\<close>

datatype outcome = Stopped adf_note | Rendered page

definition main :: "'r libs \<Rightarrow> raw_row list \<Rightarrow> py_error + outcome" where
  "main lib sheet =
     (case load_cicalino_data sheet of
        Inl e \<Rightarrow> Inl e
      | Inr (y, ex) \<Rightarrow>
          (let (note, adf_p) = adf_step lib y
           in case auto_arimax (sarimax_fit lib) y ex of
                (None, aic, res) \<Rightarrow> Inl TypeError
              | (Some (p, d, q), aic, None) \<Rightarrow> Inr (Stopped note)
              | (Some (p, d, q), aic, Some r) \<Rightarrow>
                  (case ex_future_row y ex of
                     Inl e \<Rightarrow> Inl e
                   | Inr exf \<Rightarrow>
                  (case get_forecast lib r exf of
                     Inl e \<Rightarrow> Inl e
                   | Inr (y_hat_raw, conf0, conf1) \<Rightarrow>
                  (case project_forecast y_hat_raw conf0 conf1 of
                     Inl e \<Rightarrow> Inl e
                   | Inr (yh, lo, up) \<Rightarrow>
                  (let (mae, rmse, sd) = fit_errors lib y r;
                       y_std = (if flt (Fin 0) sd then Some sd else None)
                   in case gentle_fidelity_notes rmse y_std of
                        Inl e \<Rightarrow> Inl e
                      | Inr notes \<Rightarrow>
                          Inr (Rendered
                            \<lparr>adf_line = note, selected_order = (p, d, q), aic_metric = aic,
                             ex_future = exf, y_hat = yh, lower = lo, upper = up,
                             mae_metric = mae, rmse_metric = rmse, fidelity_notes = notes,
                             pdq_notes = dynamic_pdq_interpretation p d q adf_p\<rparr>)))))))"


section \<open>Sample inputs\<close>

text \<open>
  A sheet with readings on days 1 and 3, and one row whose date did not parse.
\<close>

definition sheet_gap :: "raw_row list" where
  "sheet_gap =
     [\<lparr>Date = Some 3, temperature_mean = Fin 22, relativehumidity_mean = Fin 50,
       adult_males = Fin 2\<rparr>,
      \<lparr>Date = None, temperature_mean = Fin 25, relativehumidity_mean = Fin 40,
       adult_males = Fin 9\<rparr>,
      \<lparr>Date = Some 1, temperature_mean = Fin 20, relativehumidity_mean = Fin 60,
       adult_males = Fin 4\<rparr>]"



text \<open>
  Fits, named by a number: order (0,0,0) fits with AIC NaN, (0,0,1) and (1,0,0) with AIC 5,
  (2,1,3) with AIC 7, every other order raises.
\<close>

definition fit_demo :: "series \<Rightarrow> exog \<Rightarrow> order \<Rightarrow> py_error + (pyfloat \<times> nat)" where
  "fit_demo y ex c =
     (if c = (0, 0, 0) then Inr (NaN, 0)
      else if c = (0, 0, 1) then Inr (Fin 5, 1)
      else if c = (1, 0, 0) then Inr (Fin 5, 2)
      else if c = (2, 1, 3) then Inr (Fin 7, 3)
      else Inl LibraryError)"

text \<open>
  Libraries in which the unit-root test raises, the fits are \<open>fit_demo\<close>, the forecast has
  mean 0.5 with bounds 2.5 and -2, and the in-sample RMSE is 1 against a standard deviation
  of 2.
\<close>

definition lib_demo :: "nat libs" where
  "lib_demo =
     \<lparr>adfuller = (\<lambda>y. Inl LibraryError),
      sarimax_fit = fit_demo,
      get_forecast = (\<lambda>r exf. Inr (Fin (1 / 2), Fin (5 / 2), Fin (- 2))),
      fit_errors = (\<lambda>y r. (Fin (3 / 4), Fin 1, Fin 2))\<rparr>"

text \<open>The same libraries, except that every fit raises.\<close>

definition lib_no_fit :: "nat libs" where
  "lib_no_fit = lib_demo\<lparr>sarimax_fit := (\<lambda>y ex c. Inl LibraryError)\<rparr>"


section \<open>Rounding\<close>

text \<open>
  CPython's two-step rounding is rounding to the nearest integer with a tie going to the
  even neighbour, and it is monotone.
\<close>


lemma c_round_half_even: "c_round (of_int (2 * m) / 2 + 1 / 4) = m"
  unfolding c_round_def by (auto intro!: floor_unique ceiling_unique)

lemma c_round_half_odd: "c_round (of_int (2 * m + 1) / 2 + 1 / 4) = m + 1"
proof -
  have e: "(of_int (2 * m + 1) / 2 + 1 / 4 :: real) = of_int m + 3 / 4" by (simp add: field_simps)
  show ?thesis unfolding e c_round_def by (auto intro!: floor_unique ceiling_unique)
qed

lemma py_round_real_tie:
  "py_round_real (of_int k + 1 / 2) = (if even k then k else k + 1)"
proof -
  let ?x = "of_int k + 1 / 2 :: real"
  have d: "\<bar>?x - of_int (c_round ?x)\<bar> = 1 / 2"
  proof (cases "0 \<le> ?x")
    case True
    then have "c_round ?x = k + 1" unfolding c_round_def
      by (auto intro!: floor_unique)
    then show ?thesis by simp
  next
    case False
    then have "c_round ?x = k" unfolding c_round_def
      by (auto intro!: ceiling_unique)
    then show ?thesis by simp
  qed
  have h: "?x / 2 = of_int k / 2 + 1 / 4" by (simp add: field_simps)
  have r: "py_round_real ?x = 2 * c_round (of_int k / 2 + 1 / 4)"
    using d unfolding py_round_real_def Let_def h by simp
  show ?thesis
  proof (cases "even k")
    case True
    then obtain m where "k = 2 * m" by (auto elim: evenE)
    then show ?thesis using r c_round_half_even [of m] by simp
  next
    case False
    then obtain m where "k = 2 * m + 1" by (auto elim: oddE)
    then show ?thesis using r c_round_half_odd [of m] by simp
  qed
qed

lemma py_round_real_alt:
  "py_round_real x =
     (let f = \<lfloor>x\<rfloor>; r = x - of_int f
      in if r < 1 / 2 then f else if 1 / 2 < r then f + 1 else if even f then f else f + 1)"
proof -
  define f where "f = \<lfloor>x\<rfloor>"
  define r where "r = x - of_int f"
  have x: "x = of_int f + r" and r0: "0 \<le> r" and r1: "r < 1"
    unfolding r_def f_def by linarith+
  consider (lo) "r < 1 / 2" | (hi) "1 / 2 < r" | (tie) "r = 1 / 2" by linarith
  then have "py_round_real x = (if r < 1 / 2 then f else if 1 / 2 < r then f + 1 else if even f then f else f + 1)"
  proof cases
    case lo
    have "c_round x = f" unfolding c_round_def using x r0 lo
      by (auto intro!: floor_unique ceiling_unique)
    then show ?thesis using lo x r0 by (simp add: py_round_real_def Let_def)
  next
    case hi
    have "c_round x = f + 1" unfolding c_round_def using x r1 hi
      by (auto intro!: floor_unique ceiling_unique)
    then show ?thesis using hi x r1 by (simp add: py_round_real_def Let_def)
  next
    case tie
    with x have "x = of_int f + 1 / 2" by simp
    then have "py_round_real x = (if even f then f else f + 1)"
      using py_round_real_tie [of f] by simp
    then show ?thesis using tie by simp
  qed
  then show ?thesis by (simp add: Let_def f_def r_def)
qed

lemma py_round_real_bounds:
  "\<lfloor>x\<rfloor> \<le> py_round_real x" "py_round_real x \<le> \<lfloor>x\<rfloor> + 1"
  by (simp_all add: py_round_real_alt Let_def)

lemma py_round_real_mono:
  assumes "x \<le> y"
  shows "py_round_real x \<le> py_round_real y"
proof (cases "\<lfloor>x\<rfloor> = \<lfloor>y\<rfloor>")
  case True
  with assms show ?thesis by (simp add: py_round_real_alt Let_def)
next
  case False
  with assms have "\<lfloor>x\<rfloor> + 1 \<le> \<lfloor>y\<rfloor>" using floor_mono [of x y] by linarith
  with py_round_real_bounds(2) [of x] py_round_real_bounds(1) [of y] show ?thesis by linarith
qed

lemma py_min_Fin: "py_min (Fin a) (Fin b) = Fin (min a b)"
  by (simp add: py_min_def min_def)

lemma py_max_Fin: "py_max (Fin a) (Fin b) = Fin (max a b)"
  by (simp add: py_max_def max_def)

lemma project_forecast_Fin:
  "project_forecast (Fin m) (Fin a) (Fin b) =
     Inr (max 0 (py_round_real m), max 0 (py_round_real (min a b)), max 0 (py_round_real (max a b)))"
  by (simp add: project_forecast_def py_min_Fin py_max_Fin)

section \<open>The projected forecast\<close>

text \<open>
  C1.  For every real-valued raw mean and every pair of real-valued raw bounds, negative
  ones and pairs around zero included, the projection returns three integers
  \<open>point\<close>, \<open>lo\<close>, \<open>up\<close> that are all at least zero, with \<open>lo \<le> up\<close>.
\<close>

theorem project_forecast_nonneg_ordered:
  "\<exists>point lo up. project_forecast (Fin m) (Fin a) (Fin b) = Inr (point, lo, up)
      \<and> 0 \<le> point \<and> 0 \<le> lo \<and> 0 \<le> up \<and> lo \<le> up"
proof -
  have "py_round_real (min a b) \<le> py_round_real (max a b)"
    by (rule py_round_real_mono) simp
  then show ?thesis by (simp add: project_forecast_Fin)
qed

text \<open>
  C4.  For every real-valued raw mean and pair of raw bounds, rounding each value, clamping
  each at zero and then ordering the two bounds (the specification's sequence) gives exactly
  the triple the code computes by ordering the raw bounds first, then rounding and clamping.
\<close>

theorem project_forecast_refines_spec_projection:
  "project_forecast (Fin m) (Fin a) (Fin b) = Inr (spec_projection m a b)"
proof (cases "a \<le> b")
  case True
  then have "py_round_real a \<le> py_round_real b" by (rule py_round_real_mono)
  with True show ?thesis
    by (simp add: project_forecast_Fin spec_projection_def Let_def min_def max_def)
next
  case False
  then have "py_round_real b \<le> py_round_real a" by (intro py_round_real_mono) simp
  with False show ?thesis
    by (auto simp add: project_forecast_Fin spec_projection_def Let_def min_def max_def)
qed

text \<open>
  C10.  A raw value \<open>k + 0.5\<close> with \<open>k\<close> an integer is rounded to \<open>k\<close> when \<open>k\<close> is even
  and to \<open>k + 1\<close> when \<open>k\<close> is odd; so 0.5 becomes 0 and 1.5 becomes 2, and the projection
  clamps that rounded value at zero.
\<close>

theorem py_round_half_to_even:
  "py_round (Fin (of_int k + 1 / 2)) = Inr (if even k then k else k + 1)
   \<and> py_round (Fin (1 / 2)) = Inr 0
   \<and> py_round (Fin (3 / 2)) = Inr 2
   \<and> project_forecast (Fin (of_int k + 1 / 2)) (Fin (of_int k + 1 / 2)) (Fin (of_int k + 1 / 2)) =
       Inr (max 0 (if even k then k else k + 1), max 0 (if even k then k else k + 1),
            max 0 (if even k then k else k + 1))"
proof -
  have a: "py_round_real (1 / 2) = 0" using py_round_real_tie [of 0] by simp
  have b: "py_round_real (3 / 2) = 2" using py_round_real_tie [of 1] by simp
  show ?thesis by (simp add: py_round_real_tie a b project_forecast_Fin)
qed

section \<open>Comparisons of floats, and the search loop\<close>

lemma flt_PInf_iff: "flt s PInf \<longleftrightarrow> s \<noteq> PInf \<and> s \<noteq> NaN"
  by (cases s) simp_all

lemma flt_not_NaN: "flt a b \<Longrightarrow> a \<noteq> NaN \<and> b \<noteq> NaN"
  by (cases a; cases b) simp_all

lemma flt_imp_not_fle: "flt a b \<Longrightarrow> \<not> fle b a"
  by (cases a; cases b) simp_all

lemma fle_flt_trans: "fle a b \<Longrightarrow> flt b c \<Longrightarrow> flt a c"
  by (cases a; cases b; cases c) simp_all

lemma not_flt_imp_fle: "\<not> flt a b \<Longrightarrow> a \<noteq> NaN \<Longrightarrow> b \<noteq> NaN \<Longrightarrow> fle b a"
  by (cases a; cases b) simp_all

lemma search_Nil: "search fit [] = (None, PInf, None)"
  by (simp add: search_def)

lemma search_snoc: "search fit (cs @ [c]) = try_candidate fit (search fit cs) c"
  by (simp add: search_def)

lemma try_candidate_raise: "fit c = Inl e \<Longrightarrow> try_candidate fit best c = best"
  by (simp add: try_candidate_def)

lemma search_skips_raising:
  assumes "fit c = Inl e"
  shows "search fit (xs @ c # ys) = search fit (xs @ ys)"
  using assms by (simp add: search_def try_candidate_raise)

lemma search_cases:
  "(search fit cs = (None, PInf, None) \<and> none_below_inf fit cs)
   \<or> (\<exists>c s r. search fit cs = (Some c, s, Some r) \<and> retained fit cs c s r)"
proof (induction cs rule: rev_induct)
  case Nil
  show ?case by (simp add: search_Nil none_below_inf_def)
next
  case (snoc c cs)
  show ?case
  proof (cases "fit c")
    case (Inl e)
    have s: "search fit (cs @ [c]) = search fit cs"
      using Inl by (simp add: search_snoc try_candidate_def)
    from snoc.IH show ?thesis
    proof (elim disjE conjE exE)
      assume "search fit cs = (None, PInf, None)" "none_below_inf fit cs"
      then show ?thesis using Inl s by (auto simp: none_below_inf_def)
    next
      fix c0 s0 r0
      assume a: "search fit cs = (Some c0, s0, Some r0)" and b: "retained fit cs c0 s0 r0"
      from b obtain xs ys where d: "cs = xs @ c0 # ys" "fit c0 = Inr (s0, r0)" "flt s0 PInf"
        "\<forall>c'\<in>set xs. \<forall>s' r'. fit c' = Inr (s', r') \<longrightarrow> \<not> fle s' s0"
        "\<forall>c'\<in>set ys. \<forall>s' r'. fit c' = Inr (s', r') \<longrightarrow> \<not> flt s' s0"
        unfolding retained_def by blast
      have "retained fit (cs @ [c]) c0 s0 r0"
        unfolding retained_def
        by (rule exI [of _ xs], rule exI [of _ "ys @ [c]"]) (use d Inl in auto)
      then show ?thesis using a s by simp
    qed
  next
    case (Inr sr)
    obtain s r where sr: "sr = (s, r)" by (cases sr)
    have fc: "fit c = Inr (s, r)" using Inr sr by simp
    from snoc.IH show ?thesis
    proof (elim disjE conjE exE)
      assume a: "search fit cs = (None, PInf, None)" and b: "none_below_inf fit cs"
      show ?thesis
      proof (cases "flt s PInf")
        case True
        have "search fit (cs @ [c]) = (Some c, s, Some r)"
          using a fc True by (simp add: search_snoc try_candidate_def)
        moreover have "retained fit (cs @ [c]) c s r"
          unfolding retained_def
        proof (rule exI [of _ cs], rule exI [of _ "[]"], intro conjI)
          show "\<forall>c'\<in>set cs. \<forall>s' r'. fit c' = Inr (s', r') \<longrightarrow> \<not> fle s' s"
          proof (intro ballI allI impI)
            fix c' s' r' assume "c' \<in> set cs" "fit c' = Inr (s', r')"
            with b have "\<not> flt s' PInf" by (auto simp: none_below_inf_def)
            then have "s' = PInf \<or> s' = NaN" by (simp add: flt_PInf_iff)
            with True show "\<not> fle s' s" by (cases s) auto
          qed
        qed (use fc True in simp_all)
        ultimately show ?thesis by simp
      next
        case False
        have "search fit (cs @ [c]) = (None, PInf, None)"
          using a fc False by (simp add: search_snoc try_candidate_def)
        moreover have "none_below_inf fit (cs @ [c])"
          using b fc False by (auto simp: none_below_inf_def)
        ultimately show ?thesis by simp
      qed
    next
      fix c0 s0 r0
      assume a: "search fit cs = (Some c0, s0, Some r0)" and b: "retained fit cs c0 s0 r0"
      from b obtain xs ys where d: "cs = xs @ c0 # ys" "fit c0 = Inr (s0, r0)" "flt s0 PInf"
        "\<forall>c'\<in>set xs. \<forall>s' r'. fit c' = Inr (s', r') \<longrightarrow> \<not> fle s' s0"
        "\<forall>c'\<in>set ys. \<forall>s' r'. fit c' = Inr (s', r') \<longrightarrow> \<not> flt s' s0"
        unfolding retained_def by blast
      show ?thesis
      proof (cases "flt s s0")
        case True
        have "search fit (cs @ [c]) = (Some c, s, Some r)"
          using a fc True by (simp add: search_snoc try_candidate_def)
        moreover have "retained fit (cs @ [c]) c s r"
          unfolding retained_def
        proof (rule exI [of _ cs], rule exI [of _ "[]"], intro conjI)
          show "flt s PInf" using True by (cases s; cases s0) simp_all
          show "\<forall>c'\<in>set cs. \<forall>s' r'. fit c' = Inr (s', r') \<longrightarrow> \<not> fle s' s"
          proof (intro ballI allI impI notI)
            fix c' s' r' assume c': "c' \<in> set cs" "fit c' = Inr (s', r')" and le: "fle s' s"
            from le True have lt: "flt s' s0" by (rule fle_flt_trans)
            from c'(1) d(1) consider "c' \<in> set xs" | "c' = c0" | "c' \<in> set ys" by auto
            then show False
            proof cases
              case 1
              with d(4) c'(2) have "\<not> fle s' s0" by blast
              with lt show False by (cases s'; cases s0) simp_all
            next
              case 2
              with d(2) c'(2) have "s' = s0" by simp
              with lt show False by (cases s0) simp_all
            next
              case 3
              with d(5) c'(2) lt show False by blast
            qed
          qed
        qed (use fc in simp_all)
        ultimately show ?thesis by simp
      next
        case False
        have "search fit (cs @ [c]) = (Some c0, s0, Some r0)"
          using a fc False by (simp add: search_snoc try_candidate_def)
        moreover have "retained fit (cs @ [c]) c0 s0 r0"
          unfolding retained_def
          by (rule exI [of _ xs], rule exI [of _ "ys @ [c]"]) (use d fc False in auto)
        ultimately show ?thesis by simp
      qed
    qed
  qed
qed

section \<open>The selected order\<close>

lemma grid_explicit:
  "grid =
     [(0, 0, 0), (0, 0, 1), (0, 0, 2), (0, 0, 3), (0, 1, 0), (0, 1, 1), (0, 1, 2), (0, 1, 3),
      (1, 0, 0), (1, 0, 1), (1, 0, 2), (1, 0, 3), (1, 1, 0), (1, 1, 1), (1, 1, 2), (1, 1, 3),
      (2, 0, 0), (2, 0, 1), (2, 0, 2), (2, 0, 3), (2, 1, 0), (2, 1, 1), (2, 1, 2), (2, 1, 3),
      (3, 0, 0), (3, 0, 1), (3, 0, 2), (3, 0, 3), (3, 1, 0), (3, 1, 1), (3, 1, 2), (3, 1, 3)]"
  by (simp add: grid_def p_vals_def d_vals_def q_vals_def upt_rec)

lemma set_grid: "set grid = {0..3} \<times> {0..1} \<times> {0..3}"
proof -
  have a: "set p_vals = {0..3}" "set q_vals = {0..3}" "set d_vals = {0..1}"
    by (auto simp: p_vals_def q_vals_def d_vals_def)
  show ?thesis unfolding grid_def by (auto simp: a)
qed

lemma auto_arimax_demo: "auto_arimax fit_demo y ex = (Some (0, 0, 1), Fin 5, Some 1)"
  by (simp add: auto_arimax_def search_def grid_explicit try_candidate_def fit_demo_def)

lemma retained_lowest:
  assumes "retained fit cs c s r" and "c' \<in> set cs" and "fit c' = Inr (s', r')" and "s' \<noteq> NaN"
  shows "fle s s'"
proof -
  from assms(1) obtain xs ys where d: "cs = xs @ c # ys" "fit c = Inr (s, r)" "flt s PInf"
    "\<forall>c'\<in>set xs. \<forall>s' r'. fit c' = Inr (s', r') \<longrightarrow> \<not> fle s' s"
    "\<forall>c'\<in>set ys. \<forall>s' r'. fit c' = Inr (s', r') \<longrightarrow> \<not> flt s' s"
    unfolding retained_def by blast
  have sn: "s \<noteq> NaN" using d(3) by (simp add: flt_PInf_iff)
  from assms(2) d(1) consider "c' \<in> set xs" | "c' = c" | "c' \<in> set ys" by auto
  then show ?thesis
  proof cases
    case 1
    with d(4) assms(3) have "\<not> fle s' s" by blast
    with sn assms(4) show ?thesis by (cases s; cases s') auto
  next
    case 2
    with d(2) assms(3) have "s' = s" by simp
    with sn show ?thesis by (cases s) simp_all
  next
    case 3
    with d(5) assms(3) have "\<not> flt s' s" by blast
    then show ?thesis using assms(4) sn by (rule not_flt_imp_fle)
  qed
qed

lemma retained_first:
  assumes "retained fit cs c s r"
  shows "c \<in> set cs \<and> fit c = Inr (s, r) \<and> flt s PInf
    \<and> (\<exists>xs ys. cs = xs @ c # ys
          \<and> (\<forall>c'\<in>set xs. \<forall>s' r'. fit c' = Inr (s', r') \<longrightarrow> \<not> fle s' s))"
  using assms unfolding retained_def by auto

lemma auto_arimax_cases:
  "(auto_arimax fit y ex = (None, PInf, None) \<and> none_below_inf (fit y ex) grid)
   \<or> (\<exists>c s r. auto_arimax fit y ex = (Some c, s, Some r) \<and> retained (fit y ex) grid c s r)"
  unfolding auto_arimax_def by (rule search_cases)

text \<open>
  C2 (as amended).  The search goes through exactly the 32 orders of
  \<open>{0..3} \<times> {0,1} \<times> {0..3}\<close>, \<open>p\<close> outermost, \<open>d\<close> in the middle, \<open>q\<close> innermost, each
  ascending.  It either retains nothing, and then every candidate that fitted has the
  score \<open>+inf\<close> or NaN; or it returns a candidate of the grid with its own score and result,
  that score is strictly below \<open>+inf\<close>, it is \<open>\<le>\<close> the score of every candidate that fitted
  with a score other than NaN, and no candidate earlier in the enumeration fitted with a
  score \<open>\<le>\<close> it (a tie goes to the first one met).
\<close>

theorem auto_arimax_lowest_comparable_score:
  "grid =
     [(0, 0, 0), (0, 0, 1), (0, 0, 2), (0, 0, 3), (0, 1, 0), (0, 1, 1), (0, 1, 2), (0, 1, 3),
      (1, 0, 0), (1, 0, 1), (1, 0, 2), (1, 0, 3), (1, 1, 0), (1, 1, 1), (1, 1, 2), (1, 1, 3),
      (2, 0, 0), (2, 0, 1), (2, 0, 2), (2, 0, 3), (2, 1, 0), (2, 1, 1), (2, 1, 2), (2, 1, 3),
      (3, 0, 0), (3, 0, 1), (3, 0, 2), (3, 0, 3), (3, 1, 0), (3, 1, 1), (3, 1, 2), (3, 1, 3)]
   \<and> set grid = {0..3} \<times> {0..1} \<times> {0..3}
   \<and> ((auto_arimax fit y ex = (None, PInf, None)
        \<and> (\<forall>c\<in>set grid. \<forall>s r. fit y ex c = Inr (s, r) \<longrightarrow> s = PInf \<or> s = NaN))
      \<or> (\<exists>c s r. auto_arimax fit y ex = (Some c, s, Some r)
            \<and> c \<in> set grid \<and> fit y ex c = Inr (s, r) \<and> flt s PInf
            \<and> (\<forall>c'\<in>set grid. \<forall>s' r'. fit y ex c' = Inr (s', r') \<longrightarrow> s' \<noteq> NaN \<longrightarrow> fle s s')
            \<and> (\<exists>xs ys. grid = xs @ c # ys
                  \<and> (\<forall>c'\<in>set xs. \<forall>s' r'. fit y ex c' = Inr (s', r') \<longrightarrow> \<not> fle s' s))))"
proof -
  from auto_arimax_cases [of fit y ex]
  have "(auto_arimax fit y ex = (None, PInf, None)
        \<and> (\<forall>c\<in>set grid. \<forall>s r. fit y ex c = Inr (s, r) \<longrightarrow> s = PInf \<or> s = NaN))
      \<or> (\<exists>c s r. auto_arimax fit y ex = (Some c, s, Some r)
            \<and> c \<in> set grid \<and> fit y ex c = Inr (s, r) \<and> flt s PInf
            \<and> (\<forall>c'\<in>set grid. \<forall>s' r'. fit y ex c' = Inr (s', r') \<longrightarrow> s' \<noteq> NaN \<longrightarrow> fle s s')
            \<and> (\<exists>xs ys. grid = xs @ c # ys
                  \<and> (\<forall>c'\<in>set xs. \<forall>s' r'. fit y ex c' = Inr (s', r') \<longrightarrow> \<not> fle s' s)))"
  proof (elim disjE conjE exE)
    assume "auto_arimax fit y ex = (None, PInf, None)" "none_below_inf (fit y ex) grid"
    then show ?thesis
      by (intro disjI1) (auto simp: none_below_inf_def flt_PInf_iff)
  next
    fix c s r
    assume a: "auto_arimax fit y ex = (Some c, s, Some r)"
      and b: "retained (fit y ex) grid c s r"
    have "\<forall>c'\<in>set grid. \<forall>s' r'. fit y ex c' = Inr (s', r') \<longrightarrow> s' \<noteq> NaN \<longrightarrow> fle s s'"
      using retained_lowest [OF b] by blast
    with a retained_first [OF b] show ?thesis
      by (intro disjI2 exI [of _ c] exI [of _ s] exI [of _ r]) simp
  qed
  with grid_explicit set_grid show ?thesis by (intro conjI)
qed

text \<open>
  With \<open>fit_demo\<close> the search returns order (0,0,1), score 5: below the 7 of (2,1,3) and tied
  with (1,0,0), which comes later.
\<close>

theorem auto_arimax_lowest_comparable_score_witness:
  "auto_arimax fit_demo [] [] = (Some (0, 0, 1), Fin 5, Some 1)
   \<and> fit_demo [] [] (2, 1, 3) = Inr (Fin 7, 3) \<and> fle (Fin 5) (Fin 7)
   \<and> fit_demo [] [] (1, 0, 0) = Inr (Fin 5, 2) \<and> fle (Fin 5) (Fin 5)"
  using auto_arimax_lowest_comparable_score [of fit_demo "[]" "[]"]
  by (simp add: auto_arimax_demo fit_demo_def)

text \<open>
  The claim as first stated fails: with \<open>fit_demo\<close> the order (0,0,0) fits with the score
  NaN, the search returns (0,0,1) with score 5, and \<open>5 <= NaN\<close> is false.
\<close>

theorem auto_arimax_nan_score_counterexample:
  "auto_arimax fit_demo [] [] = (Some (0, 0, 1), Fin 5, Some 1)
   \<and> fit_demo [] [] (0, 0, 0) = Inr (NaN, 0)
   \<and> (0, 0, 0) \<in> set grid
   \<and> \<not> fle (Fin 5) NaN"
  by (simp add: auto_arimax_demo fit_demo_def grid_explicit)

section \<open>The caller of the search\<close>

lemma auto_arimax_failure_iff:
  "auto_arimax fit y ex = (None, PInf, None) \<longleftrightarrow> none_below_inf (fit y ex) grid"
proof
  assume "auto_arimax fit y ex = (None, PInf, None)"
  with auto_arimax_cases [of fit y ex] show "none_below_inf (fit y ex) grid" by auto
next
  assume n: "none_below_inf (fit y ex) grid"
  from auto_arimax_cases [of fit y ex] show "auto_arimax fit y ex = (None, PInf, None)"
  proof (elim disjE conjE exE)
    fix c s r assume "retained (fit y ex) grid c s r"
    from retained_first [OF this] n show ?thesis by (auto simp: none_below_inf_def)
  qed
qed

lemma auto_arimax_all_raise:
  assumes "\<And>c. c \<in> set grid \<Longrightarrow> \<exists>e. fit y ex c = Inl e"
  shows "auto_arimax fit y ex = (None, PInf, None)"
  unfolding auto_arimax_failure_iff none_below_inf_def using assms by fastforce

lemma auto_arimax_order_iff_result:
  "auto_arimax fit y ex = (c, s, r) \<Longrightarrow> (c = None \<longleftrightarrow> r = None)"
  using auto_arimax_cases [of fit y ex] by auto

lemma load_sheet_gap:
  "load_cicalino_data sheet_gap =
     Inr ([(1, Fin 4), (2, Fin 3), (3, Fin 2)],
          [(1, Fin 20, Fin 60), (2, Fin 21, Fin 55), (3, Fin 22, Fin 50)])"
  by (simp add: load_cicalino_data_def sheet_gap_def dropna_def sort_values_Date_def
      set_index_Date_def asfreq_D_def interpolate_col_def valid_points_def isnan_def
      interp_between_def c_fdiv_def fsub_def upto.simps enumerate_eq_zip)

text \<open>
  C3.  When every fit raises, \<open>auto_arimax\<close> returns \<open>(None, inf, None)\<close>, and the unpacking
  \<open>(p, d, q), aic, res = ...\<close> of line 115 raises TypeError before the test \<open>res is None\<close>:
  on the sheet \<open>sheet_gap\<close> with libraries whose fits all raise, \<open>main\<close> ends with that
  uncaught TypeError.  In no run at all does \<open>main\<close> reach the error box and \<open>st.stop()\<close>.
\<close>

theorem main_crashes_when_every_fit_raises:
  "sarimax_fit lib_no_fit y ex c = Inl LibraryError
   \<and> auto_arimax (sarimax_fit lib_no_fit) y ex = (None, PInf, None)
   \<and> main lib_no_fit sheet_gap = Inl TypeError
   \<and> main lib sheet \<noteq> Inr (Stopped note)"
proof (intro conjI)
  show f: "sarimax_fit lib_no_fit y ex c = Inl LibraryError" for y ex c
    by (simp add: lib_no_fit_def)
  show a: "auto_arimax (sarimax_fit lib_no_fit) y ex = (None, PInf, None)" for y ex
    by (rule auto_arimax_all_raise) (simp add: f)
  show "main lib_no_fit sheet_gap = Inl TypeError"
    by (simp add: main_def load_sheet_gap a split: prod.splits)
  show "main lib sheet \<noteq> Inr (Stopped note)"
  proof (cases "load_cicalino_data sheet")
    case (Inl e)
    then show ?thesis by (simp add: main_def)
  next
    case (Inr yex)
    obtain y ex where yex: "yex = (y, ex)" by (cases yex)
    obtain c s r where b: "auto_arimax (sarimax_fit lib) y ex = (c, s, r)"
      by (cases "auto_arimax (sarimax_fit lib) y ex")
    from auto_arimax_order_iff_result [OF b] Inr yex b show ?thesis
      by (auto simp: main_def Let_def split: prod.splits option.splits sum.splits)
  qed
qed

section \<open>Interpretation and fidelity notes\<close>

text \<open>
  C6 (as amended).  The first message interprets \<open>d\<close>: with \<open>d = 0\<close> and a p-value below 0.05
  the series is already stationary; with \<open>d = 0\<close> and a p-value of at least 0.05
  stationarity is handled by AR/MA or the exogenous terms; with \<open>d \<ge> 1\<close> and a p-value of
  at least 0.05 differencing was applied; with \<open>d \<ge> 1\<close> and a p-value below 0.05 the model
  prefers differencing; and with the p-value unavailable, whatever \<open>d\<close>, the message is
  the generic one (degree of differencing selected for the stability of the model).
\<close>

theorem dynamic_pdq_interpretation_d_rule:
  "(d = 0 \<and> adf_p = Some v \<and> flt v (Fin (5 / 100)) \<longrightarrow>
      hd (dynamic_pdq_interpretation p d q adf_p) = D0_already_stationary)
   \<and> (d = 0 \<and> adf_p = Some v \<and> fle (Fin (5 / 100)) v \<longrightarrow>
      hd (dynamic_pdq_interpretation p d q adf_p) = D0_handled_by_arma_or_exog)
   \<and> (d \<ge> 1 \<and> adf_p = Some v \<and> fle (Fin (5 / 100)) v \<longrightarrow>
      hd (dynamic_pdq_interpretation p d q adf_p) = D_differencing_applied d)
   \<and> (d \<ge> 1 \<and> adf_p = Some v \<and> flt v (Fin (5 / 100)) \<longrightarrow>
      hd (dynamic_pdq_interpretation p d q adf_p) = D_prefers_differencing d)
   \<and> (adf_p = None \<longrightarrow>
      hd (dynamic_pdq_interpretation p d q adf_p) = D_degree_selected d)
   \<and> length (dynamic_pdq_interpretation p d q adf_p) = 3"
proof -
  have a: "flt v (Fin (5 / 100)) \<Longrightarrow> \<not> fle (Fin (5 / 100)) v"
    by (rule flt_imp_not_fle)
  have b: "fle (Fin (5 / 100)) v \<Longrightarrow> \<not> flt v (Fin (5 / 100))"
    using a by blast
  show ?thesis
    using a b by (auto simp: dynamic_pdq_interpretation_def Let_def)
qed

text \<open>The five cases at the order (1, d, 1), with the p-values 0.01 and 0.05.\<close>

theorem dynamic_pdq_interpretation_d_rule_witness:
  "hd (dynamic_pdq_interpretation 1 0 1 (Some (Fin (1 / 100)))) = D0_already_stationary
   \<and> hd (dynamic_pdq_interpretation 1 0 1 (Some (Fin (5 / 100)))) = D0_handled_by_arma_or_exog
   \<and> hd (dynamic_pdq_interpretation 1 1 1 (Some (Fin (5 / 100)))) = D_differencing_applied 1
   \<and> hd (dynamic_pdq_interpretation 1 1 1 (Some (Fin (1 / 100)))) = D_prefers_differencing 1
   \<and> hd (dynamic_pdq_interpretation 1 1 1 None) = D_degree_selected 1"
  using dynamic_pdq_interpretation_d_rule [of 0 "Some (Fin (1 / 100))" "Fin (1 / 100)" 1 1]
    dynamic_pdq_interpretation_d_rule [of 0 "Some (Fin (5 / 100))" "Fin (5 / 100)" 1 1]
    dynamic_pdq_interpretation_d_rule [of 1 "Some (Fin (5 / 100))" "Fin (5 / 100)" 1 1]
    dynamic_pdq_interpretation_d_rule [of 1 "Some (Fin (1 / 100))" "Fin (1 / 100)" 1 1]
    dynamic_pdq_interpretation_d_rule [of 1 None NaN 1 1]
  by simp

text \<open>
  The claim as first stated fails: with \<open>d = 0\<close> and the p-value unavailable the message is
  the generic one, not the one about AR/MA or exogenous terms.
\<close>

theorem dynamic_pdq_interpretation_unavailable_counterexample:
  "hd (dynamic_pdq_interpretation 1 0 1 None) = D_degree_selected 0
   \<and> hd (dynamic_pdq_interpretation 1 0 1 None) \<noteq> D0_handled_by_arma_or_exog"
  by (simp add: dynamic_pdq_interpretation_def)

text \<open>
  C7.  For every finite RMSE and every standard deviation: when the deviation is absent,
  NaN or zero, the only note is the one on low natural variability; otherwise
  \<open>ratio = rmse / y_std\<close> is computed without error and exactly one bucket is chosen,
  "contained" for \<open>ratio < 0.5\<close>, "in line" for \<open>0.5 \<le> ratio < 1\<close>, "exceed" for
  \<open>ratio \<ge> 1\<close>.  A ratio of exactly 0.5 gives "in line", a ratio of exactly 1 "exceed".
\<close>

theorem gentle_fidelity_notes_buckets:
  "(y_std = None \<or> y_std = Some NaN \<or> y_std = Some (Fin 0) \<longrightarrow>
      gentle_fidelity_notes (Fin rmse) y_std = Inr [Low_natural_variability])
   \<and> (y_std = Some s \<and> s \<noteq> NaN \<and> s \<noteq> Fin 0 \<longrightarrow>
        (\<exists>ratio. fdiv (Fin rmse) s = Inr ratio
           \<and> ((flt ratio (Fin (1 / 2))
                \<and> gentle_fidelity_notes (Fin rmse) y_std =
                    Inr [Deviations_contained, Suggestion_compare_peaks])
              \<or> (fle (Fin (1 / 2)) ratio \<and> flt ratio (Fin 1)
                \<and> gentle_fidelity_notes (Fin rmse) y_std =
                    Inr [Deviations_in_line, Suggestion_compare_peaks])
              \<or> (fle (Fin 1) ratio
                \<and> gentle_fidelity_notes (Fin rmse) y_std =
                    Inr [Deviations_exceed, Suggestion_compare_peaks]))))
   \<and> (sd \<noteq> 0 \<longrightarrow>
        gentle_fidelity_notes (Fin (sd / 2)) (Some (Fin sd)) =
          Inr [Deviations_in_line, Suggestion_compare_peaks]
        \<and> gentle_fidelity_notes (Fin sd) (Some (Fin sd)) =
          Inr [Deviations_exceed, Suggestion_compare_peaks])"
proof (intro conjI impI)
  assume "y_std = None \<or> y_std = Some NaN \<or> y_std = Some (Fin 0)"
  then show "gentle_fidelity_notes (Fin rmse) y_std = Inr [Low_natural_variability]"
    by (auto simp: gentle_fidelity_notes_def isnan_def)
next
  assume a: "y_std = Some s \<and> s \<noteq> NaN \<and> s \<noteq> Fin 0"
  show "\<exists>ratio. fdiv (Fin rmse) s = Inr ratio
           \<and> ((flt ratio (Fin (1 / 2))
                \<and> gentle_fidelity_notes (Fin rmse) y_std =
                    Inr [Deviations_contained, Suggestion_compare_peaks])
              \<or> (fle (Fin (1 / 2)) ratio \<and> flt ratio (Fin 1)
                \<and> gentle_fidelity_notes (Fin rmse) y_std =
                    Inr [Deviations_in_line, Suggestion_compare_peaks])
              \<or> (fle (Fin 1) ratio
                \<and> gentle_fidelity_notes (Fin rmse) y_std =
                    Inr [Deviations_exceed, Suggestion_compare_peaks]))"
  proof (cases s)
    case (Fin x)
    with a have "x \<noteq> 0" by simp
    with a Fin show ?thesis
      by (auto simp: gentle_fidelity_notes_def isnan_def not_less)
  next
    case PInf
    with a show ?thesis by (simp add: gentle_fidelity_notes_def isnan_def)
  next
    case NInf
    with a show ?thesis by (simp add: gentle_fidelity_notes_def isnan_def)
  next
    case NaN
    with a show ?thesis by simp
  qed
next
  assume "sd \<noteq> 0"
  then show "gentle_fidelity_notes (Fin (sd / 2)) (Some (Fin sd)) =
          Inr [Deviations_in_line, Suggestion_compare_peaks]"
    by (simp add: gentle_fidelity_notes_def isnan_def)
next
  assume "sd \<noteq> 0"
  then show "gentle_fidelity_notes (Fin sd) (Some (Fin sd)) =
          Inr [Deviations_exceed, Suggestion_compare_peaks]"
    by (simp add: gentle_fidelity_notes_def isnan_def)
qed

text \<open>The degenerate deviations, and an RMSE of 1 or 2 against deviations of 4 and 2.\<close>

theorem gentle_fidelity_notes_buckets_witness:
  "gentle_fidelity_notes (Fin 1) (Some NaN) = Inr [Low_natural_variability]
   \<and> gentle_fidelity_notes (Fin 1) (Some (Fin 0)) = Inr [Low_natural_variability]
   \<and> gentle_fidelity_notes (Fin 1) None = Inr [Low_natural_variability]
   \<and> fdiv (Fin 1) (Fin 4) = Inr (Fin (1 / 4))
   \<and> gentle_fidelity_notes (Fin 1) (Some (Fin 4)) =
        Inr [Deviations_contained, Suggestion_compare_peaks]
   \<and> gentle_fidelity_notes (Fin 1) (Some (Fin 2)) =
        Inr [Deviations_in_line, Suggestion_compare_peaks]
   \<and> gentle_fidelity_notes (Fin 2) (Some (Fin 2)) =
        Inr [Deviations_exceed, Suggestion_compare_peaks]"
  using gentle_fidelity_notes_buckets [of "Some NaN" 1 NaN 2]
    gentle_fidelity_notes_buckets [of "Some (Fin 0)" 1 NaN 2]
    gentle_fidelity_notes_buckets [of None 1 NaN 2]
    gentle_fidelity_notes_buckets [of "Some (Fin 4)" 1 "Fin 4" 2]
  by simp

section \<open>Series preparation\<close>







lemma asfreq_D_index:
  assumes "asfreq_D df = Inr out"
  shows "out = [] \<and> df = [] \<or>
         df \<noteq> [] \<and> map fst out = [Min (set (map fst df)) .. Max (set (map fst df))]"
proof (cases "df = []")
  case True
  with assms show ?thesis by (simp add: asfreq_D_def)
next
  case False
  with assms have "out = map (\<lambda>day. case map_of df day of None \<Rightarrow> (day, NaN, NaN, NaN) | Some v \<Rightarrow> (day, v))
       [Min (set (map fst df)) .. Max (set (map fst df))]"
    by (auto simp: asfreq_D_def split: if_splits)
  then have "map fst out = [Min (set (map fst df)) .. Max (set (map fst df))]"
    by (simp add: comp_def map_idI split: option.split)
  with False show ?thesis by simp
qed




lemma length_interpolate_col: "length (interpolate_col col) = length col"
  by (simp add: interpolate_col_def split: list.split)



lemma Min_le_Max_list:
  fixes xs :: "int list"
  assumes "xs \<noteq> []"
  shows "Min (set xs) \<le> Max (set xs)"
proof -
  from assms have "hd xs \<in> set xs" by simp
  then have "Min (set xs) \<le> hd xs" "hd xs \<le> Max (set xs)" by simp_all
  then show ?thesis by (rule order_trans)
qed

lemma load_cicalino_data_Inr:
  assumes "asfreq_D (set_index_Date (sort_values_Date (dropna sheet))) = Inr df"
  shows "load_cicalino_data sheet =
     Inr (zip (map fst df) (interpolate_col (map (\<lambda>(day, t, h, m). m) df)),
          zip (map fst df) (zip (interpolate_col (map (\<lambda>(day, t, h, m). t) df))
                                (interpolate_col (map (\<lambda>(day, t, h, m). h) df))))"
  using assms by (simp add: load_cicalino_data_def Let_def)

lemma load_cicalino_data_index:
  assumes "load_cicalino_data sheet = Inr (y, ex)"
  shows "map fst ex = map fst y \<and> length ex = length y
     \<and> (y = [] \<or> (\<exists>lo hi. lo \<le> hi \<and> map fst y = [lo..hi]))"
proof -
  let ?P = "set_index_Date (sort_values_Date (dropna sheet))"
  from assms obtain df where df: "asfreq_D ?P = Inr df"
    by (auto simp: load_cicalino_data_def split: sum.splits)
  from assms load_cicalino_data_Inr [OF df]
  have y: "y = zip (map fst df) (interpolate_col (map (\<lambda>(day, t, h, m). m) df))"
    and ex: "ex = zip (map fst df) (zip (interpolate_col (map (\<lambda>(day, t, h, m). t) df))
                                (interpolate_col (map (\<lambda>(day, t, h, m). h) df)))"
    by simp_all
  have my: "map fst y = map fst df" unfolding y
    by (rule map_fst_zip) (simp add: length_interpolate_col)
  have mx: "map fst ex = map fst df" unfolding ex
    by (rule map_fst_zip) (simp add: length_interpolate_col)
  have len: "length ex = length y" using my mx by (metis length_map)
  from asfreq_D_index [OF df] show ?thesis
  proof (elim disjE conjE)
    assume "df = []"
    then show ?thesis using my mx len by simp
  next
    assume a: "?P \<noteq> []" and b: "map fst df = [Min (set (map fst ?P)) .. Max (set (map fst ?P))]"
    have "Min (set (map fst ?P)) \<le> Max (set (map fst ?P))"
      using a by (intro Min_le_Max_list) simp
    with b my mx len show ?thesis by metis
  qed
qed







section \<open>The forecast row and the unit-root test\<close>

lemma last_upto: "lo \<le> hi \<Longrightarrow> last [lo..hi] = hi"
  by (simp add: upto_rec2)

lemma ex_future_row_loaded:
  assumes "load_cicalino_data sheet = Inr (y, ex)" and "ex_future_row y ex = Inr exf"
  shows "ex \<noteq> [] \<and> y \<noteq> [] \<and> exf = (Some (fst (last y) + 1), snd (last ex))
     \<and> fst (last ex) = fst (last y) \<and> Max (set (map fst y)) = fst (last y)"
proof -
  from assms(2) have ex: "ex \<noteq> []" by (auto simp: ex_future_row_def Let_def split: if_splits)
  from load_cicalino_data_index [OF assms(1)]
  have m: "map fst ex = map fst y" and l: "length ex = length y"
    and r: "y = [] \<or> (\<exists>lo hi. lo \<le> hi \<and> map fst y = [lo..hi])" by simp_all
  from ex l have y: "y \<noteq> []" by auto
  with r obtain lo hi where lh: "lo \<le> hi" "map fst y = [lo..hi]" by auto
  have "fst (last y) = last (map fst y)" using y by (simp add: last_map)
  then have ly: "fst (last y) = hi" using lh by (simp add: last_upto)
  have "fst (last ex) = last (map fst ex)" using ex by (simp add: last_map)
  then have lx: "fst (last ex) = hi" using lh m by (simp add: last_upto)
  have mx: "Max (set (map fst y)) = hi" unfolding lh(2) using lh(1)
    by (intro Max_eqI) simp_all
  from assms(2) ex y have "exf = (Some (Max (set (map fst y)) + 1), snd (last ex))"
    by (auto simp: ex_future_row_def Let_def)
  with ex y ly lx mx show ?thesis by simp
qed

text \<open>
  C9.  Whenever \<open>main\<close> renders its page, the exogenous row of the forecast is the last row
  of \<open>ex\<close>, value for value, under the day after the last (and largest) day of the index
  of \<open>y\<close>, which is also the last day of \<open>ex\<close>; and the forecast shown is the projection of
  what \<open>get_forecast\<close> returns for the selected fit at that row.
\<close>

theorem ex_future_is_last_observed_row:
  assumes "main lib sheet = Inr (Rendered pg)" and "load_cicalino_data sheet = Inr (y, ex)"
  shows "ex \<noteq> [] \<and> y \<noteq> []
     \<and> ex_future pg = (Some (fst (last y) + 1), snd (last ex))
     \<and> fst (last ex) = fst (last y)
     \<and> Max (set (map fst y)) = fst (last y)
     \<and> (\<exists>aic r m c0 c1.
           auto_arimax (sarimax_fit lib) y ex = (Some (selected_order pg), aic, Some r)
           \<and> get_forecast lib r (ex_future pg) = Inr (m, c0, c1)
           \<and> project_forecast m c0 c1 = Inr (y_hat pg, lower pg, upper pg))"
proof -
  from assms obtain aic r exf m c0 c1 where
    a: "auto_arimax (sarimax_fit lib) y ex = (Some (selected_order pg), aic, Some r)"
    and b: "ex_future_row y ex = Inr exf"
    and c: "get_forecast lib r exf = Inr (m, c0, c1)"
    and d: "project_forecast m c0 c1 = Inr (y_hat pg, lower pg, upper pg)"
    and e: "ex_future pg = exf"
    by (auto simp: main_def Let_def split: sum.splits prod.splits option.splits)
  from ex_future_row_loaded [OF assms(2) b] a c d e show ?thesis by auto
qed

lemma main_lib_demo:
  "main lib_demo sheet_gap =
     Inr (Rendered
       \<lparr>adf_line = Adf_unavailable, selected_order = (0, 0, 1),
          aic_metric = Fin 5, ex_future = (Some 4, Fin 22, Fin 50),
          y_hat = 0, lower = 0, upper = 2, mae_metric = Fin (3 / 4),
          rmse_metric = Fin 1,
          fidelity_notes = [Deviations_in_line, Suggestion_compare_peaks],
          pdq_notes = [D_degree_selected 0, P0_limited_past, Q_short_term_shocks 1]\<rparr>)"
proof -
  have a: "py_round_real (1 / 2) = 0" using py_round_real_tie [of 0] by simp
  have b: "py_round_real (5 / 2) = 2" using py_round_real_tie [of 2] by simp
  have c: "py_round_real (- 2) = - 2" by (simp add: py_round_real_def c_round_def)
  show ?thesis
    by (simp add: main_def load_sheet_gap lib_demo_def auto_arimax_demo adf_step_def
        ex_future_row_def project_forecast_def py_min_def py_max_def a b c
        gentle_fidelity_notes_def isnan_def dynamic_pdq_interpretation_def)
qed

text \<open>On \<open>sheet_gap\<close> the row is that of day 3, under day 4.\<close>

theorem ex_future_is_last_observed_row_witness:
  "main lib_demo sheet_gap \<noteq> Inl TypeError
   \<and> load_cicalino_data sheet_gap =
       Inr ([(1, Fin 4), (2, Fin 3), (3, Fin 2)],
            [(1, Fin 20, Fin 60), (2, Fin 21, Fin 55), (3, Fin 22, Fin 50)])
   \<and> (\<exists>pg. main lib_demo sheet_gap = Inr (Rendered pg)
         \<and> ex_future pg = (Some 4, Fin 22, Fin 50))"
  using ex_future_is_last_observed_row [OF main_lib_demo load_sheet_gap]
  by (simp add: main_lib_demo load_sheet_gap)






end
